theory Spec2Isabelle
  imports Main "HOL-Library.AList" "HOL-Library.Multiset"
begin

section \<open>Data model\<close>

text \<open>
  The engine of \<^verbatim>\<open>src/src/index.js\<close> keeps one JSON file that maps collection names
  to arrays of documents. A JSON value is modelled by the datatype below. Numbers are
  the integers (the numbers of the source are IEEE doubles; fractions, NaN and the
  infinities are outside the model). An object is the list of its own properties in the
  order \<^verbatim>\<open>Object.entries\<close> enumerates them; property names are ordinary keys (names
  that an object inherits from \<^verbatim>\<open>Object.prototype\<close>, and integer-like keys, which
  JavaScript enumerates first, are outside the model).
\<close>

datatype json =
    JNull
  | JBool bool
  | JNum int
  | JStr string
  | JArr "json list"
  | JObj "(string \<times> json) list"

type_synonym document = "(string \<times> json) list"
type_synonym database = "(string \<times> document list) list"

text \<open>
  \<^verbatim>\<open>obj[key]\<close>: the value of the property, \<open>None\<close> standing for \<^verbatim>\<open>undefined\<close>.
\<close>

definition lookup :: "(string \<times> 'v) list \<Rightarrow> string \<Rightarrow> 'v option" where
  "lookup obj key = map_of obj key"

text \<open>
  \<^verbatim>\<open>{...obj, key: v}\<close> and \<^verbatim>\<open>obj[key] = v\<close>: an existing property keeps its place and
  takes the new value, a new property goes to the end. This is \<^const>\<open>AList.update\<close>.
  \<^verbatim>\<open>{...a, ...b}\<close> assigns the properties of \<open>b\<close> one after the other.
\<close>

definition spread :: "(string \<times> 'v) list \<Rightarrow> (string \<times> 'v) list \<Rightarrow> (string \<times> 'v) list" where
  "spread a b = foldl (\<lambda>acc (k, v). AList.update k v acc) a b"

section \<open>The query matcher\<close>

text \<open>
  \<^verbatim>\<open>x === y\<close> of the source, for \<open>x\<close> read from a document that \<^verbatim>\<open>JSON.parse\<close> has
  just built and \<open>y\<close> a value of the caller's filter. Primitive values are compared by
  type and value. Arrays and objects are compared by reference, and a freshly parsed
  document shares no reference with the caller's filter, so the comparison is false.
  The values of a filter, and of a patch, are JSON values (\<^verbatim>\<open>undefined\<close> and values
  that JSON cannot hold are outside the model).
\<close>

fun strict_equal :: "json option \<Rightarrow> json \<Rightarrow> bool" where
  "strict_equal (Some JNull) JNull = True"
| "strict_equal (Some (JBool a)) (JBool b) = (a = b)"
| "strict_equal (Some (JNum a)) (JNum b) = (a = b)"
| "strict_equal (Some (JStr a)) (JStr b) = (a = b)"
| "strict_equal _ _ = False"

text \<open>
  \<^verbatim>\<open>
  _matchesQuery(doc, query) {
      if (Object.keys(query).length === 0) return true;
      for (const [key, value] of Object.entries(query)) {
          if (doc[key] !== value) { return false; }
      }
      return true;
  }
  \<close>
\<close>

fun matchesLoop :: "document \<Rightarrow> (string \<times> json) list \<Rightarrow> bool" where
  "matchesLoop doc [] = True"
| "matchesLoop doc ((key, v) # rest) =
     (if \<not> strict_equal (lookup doc key) v then False else matchesLoop doc rest)"

definition matchesQuery :: "document \<Rightarrow> (string \<times> json) list \<Rightarrow> bool" where
  "matchesQuery doc query = (if length query = 0 then True else matchesLoop doc query)"

text \<open>The primitive JSON values: everything but arrays and objects.\<close>

fun primitive :: "json \<Rightarrow> bool" where
  "primitive (JArr _) = False"
| "primitive (JObj _) = False"
| "primitive _ = True"

section \<open>The engine: state, errors, reading and writing\<close>

text \<open>
  The codes of \<^verbatim>\<open>DatabaseError\<close>. \<open>NODE_ERROR\<close> stands for a failure that is not a
  \<^verbatim>\<open>DatabaseError\<close> (a raw error of the file system, which \<^verbatim>\<open>init\<close> rethrows as it is).
  Every operation rethrows a \<^verbatim>\<open>DatabaseError\<close> unchanged and wraps any other failure in
  its own code (\<open>FIND_ERROR\<close>, \<open>UPDATE_ERROR\<close> and so on); on the typed arguments of
  this model no such other failure arises, so the operations below return the
  \<^verbatim>\<open>DatabaseError\<close> of the step that failed.
\<close>

datatype error_code =
    NOT_INITIALIZED | CORRUPTED_DATABASE | READ_ERROR | WRITE_ERROR | INVALID_INPUT
  | COLLECTION_EXISTS | COLLECTION_NOT_FOUND | DOCUMENT_NOT_FOUND
  | CREATE_COLLECTION_ERROR | INSERT_ERROR | FIND_ERROR | UPDATE_ERROR | DELETE_ERROR
  | DROP_ERROR | STATS_ERROR | NODE_ERROR

text \<open>
  The backing file: absent, holding text that \<^verbatim>\<open>JSON.parse\<close> rejects, or holding a
  database (a mapping from names to arrays of objects, which is what \<^verbatim>\<open>init\<close> and
  every operation write). What \<^verbatim>\<open>JSON.stringify\<close> writes, \<^verbatim>\<open>JSON.parse\<close> reads back
  unchanged, so the file is modelled by the value it holds.
\<close>

datatype file_content = Missing | Unparsable | Stored database

text \<open>
  The state: the flag \<^verbatim>\<open>this.initialized\<close>, the file, whether \<^verbatim>\<open>fs.writeFile\<close> succeeds
  (the environment's part), and a count of the calls of \<^verbatim>\<open>fs.writeFile\<close> made so far,
  kept so that a write which stores what the file already holds is still seen.
\<close>

record engine =
  initialized :: bool
  content :: file_content
  writable :: bool
  writes :: nat

definition new_engine :: "file_content \<Rightarrow> bool \<Rightarrow> engine" where
  "new_engine f w = \<lparr>initialized = False, content = f, writable = w, writes = 0\<rparr>"

definition init :: "engine \<Rightarrow> (error_code + unit) \<times> engine" where
  "init e =
     (case content e of
        Missing \<Rightarrow>
          (if writable e
           then (Inr (), e\<lparr>content := Stored [], writes := writes e + 1, initialized := True\<rparr>)
           else (Inl NODE_ERROR, e\<lparr>writes := writes e + 1\<rparr>))
      | Unparsable \<Rightarrow> (Inl CORRUPTED_DATABASE, e)
      | Stored db \<Rightarrow> (Inr (), e\<lparr>initialized := True\<rparr>))"

definition close :: "engine \<Rightarrow> (error_code + unit) \<times> engine" where
  "close e = (Inr (), e\<lparr>initialized := False\<rparr>)"

definition readDatabase :: "engine \<Rightarrow> (error_code + database) \<times> engine" where
  "readDatabase e =
     (if \<not> initialized e then (Inl NOT_INITIALIZED, e)
      else case content e of
             Missing \<Rightarrow> (Inl READ_ERROR, e)
           | Unparsable \<Rightarrow> (Inl CORRUPTED_DATABASE, e)
           | Stored db \<Rightarrow> (Inr db, e))"

definition writeDatabase :: "database \<Rightarrow> engine \<Rightarrow> (error_code + unit) \<times> engine" where
  "writeDatabase db e =
     (if \<not> initialized e then (Inl NOT_INITIALIZED, e)
      else if writable e then (Inr (), e\<lparr>content := Stored db, writes := writes e + 1\<rparr>)
      else (Inl WRITE_ERROR, e\<lparr>writes := writes e + 1\<rparr>))"

section \<open>Collection management\<close>

text \<open>
  \<^verbatim>\<open>!collectionName.trim()\<close>: the name is empty once its white space is trimmed, that is,
  it holds white space only. Characters are code units below 256.
\<close>

definition js_whitespace :: "char \<Rightarrow> bool" where
  "js_whitespace c \<longleftrightarrow>
     c \<in> set [CHR 0x09, CHR 0x0A, CHR 0x0B, CHR 0x0C, CHR 0x0D, CHR 0x20, CHR 0xA0]"

definition blank :: "string \<Rightarrow> bool" where
  "blank name = list_all js_whitespace name"

text \<open>
  \<^verbatim>\<open>if (db[collectionName])\<close>: an array, empty or not, is truthy, so the test is whether
  the collection is there.
\<close>

definition createCollection :: "string \<Rightarrow> engine \<Rightarrow> (error_code + unit) \<times> engine" where
  "createCollection collectionName e =
     (if blank collectionName then (Inl INVALID_INPUT, e)
      else case readDatabase e of
             (Inl err, e1) \<Rightarrow> (Inl err, e1)
           | (Inr db, e1) \<Rightarrow>
               (if lookup db collectionName \<noteq> None then (Inl COLLECTION_EXISTS, e1)
                else writeDatabase (AList.update collectionName [] db) e1))"

definition dropCollection :: "string \<Rightarrow> engine \<Rightarrow> (error_code + unit) \<times> engine" where
  "dropCollection collectionName e =
     (case readDatabase e of
        (Inl err, e1) \<Rightarrow> (Inl err, e1)
      | (Inr db, e1) \<Rightarrow>
          (if lookup db collectionName = None then (Inl COLLECTION_NOT_FOUND, e1)
           else writeDatabase (AList.delete collectionName db) e1))"

section \<open>Insert\<close>

text \<open>The argument of \<^verbatim>\<open>insert\<close>: one document, or an array of documents.\<close>

datatype insert_arg = Single document | Batch "document list"

definition normalize :: "insert_arg \<Rightarrow> document list" where
  "normalize arg = (case arg of Single d \<Rightarrow> [d] | Batch ds \<Rightarrow> ds)"

text \<open>
  \<^verbatim>\<open>{...doc, _id: this._generateId(), _createdAt: timestamp, _updatedAt: timestamp}\<close>.
  The clock and \<^verbatim>\<open>_generateId\<close> (time and \<^verbatim>\<open>Math.random\<close>) belong to the environment:
  \<open>timestamp\<close> is what the clock returned and \<open>gen i\<close> what the \<open>i\<close>-th call of
  \<^verbatim>\<open>_generateId\<close> of this insert returned.
\<close>

definition withMetadata :: "string \<Rightarrow> string \<Rightarrow> document \<Rightarrow> document" where
  "withMetadata ident timestamp doc =
     AList.update ''_updatedAt'' (JStr timestamp)
       (AList.update ''_createdAt'' (JStr timestamp)
         (AList.update ''_id'' (JStr ident) doc))"

definition documentsWithMetadata :: "string \<Rightarrow> (nat \<Rightarrow> string) \<Rightarrow> document list \<Rightarrow> document list" where
  "documentsWithMetadata timestamp gen documents =
     map (\<lambda>(i, doc). withMetadata (gen i) timestamp doc) (enumerate 0 documents)"

type_synonym insert_result = "nat \<times> json option list"

definition insert_op ::
  "string \<Rightarrow> insert_arg \<Rightarrow> string \<Rightarrow> (nat \<Rightarrow> string) \<Rightarrow> engine \<Rightarrow> (error_code + insert_result) \<times> engine" where
  "insert_op collectionName arg timestamp gen e =
     (let documents = normalize arg in
      if length documents = 0 then (Inl INVALID_INPUT, e)
      else case readDatabase e of
             (Inl err, e1) \<Rightarrow> (Inl err, e1)
           | (Inr db, e1) \<Rightarrow>
               (case lookup db collectionName of
                  None \<Rightarrow> (Inl COLLECTION_NOT_FOUND, e1)
                | Some stored \<Rightarrow>
                    (let added = documentsWithMetadata timestamp gen documents in
                     case writeDatabase (AList.update collectionName (stored @ added) db) e1 of
                       (Inl err, e2) \<Rightarrow> (Inl err, e2)
                     | (Inr _, e2) \<Rightarrow>
                         (Inr (length added, map (\<lambda>doc. lookup doc ''_id'') added), e2))))"

section \<open>Sorting\<close>

text \<open>
  \<^verbatim>\<open>x < y\<close> of the source on two values read from documents (\<open>None\<close> is \<^verbatim>\<open>undefined\<close>).
  \<^verbatim>\<open>undefined\<close> converts to NaN, and a comparison with NaN is false. Two strings are
  compared by their code units. \<^verbatim>\<open>null\<close>, booleans and numbers are compared as numbers
  (\<^verbatim>\<open>null\<close> is 0, \<^verbatim>\<open>false\<close> 0, \<^verbatim>\<open>true\<close> 1). Every other pair needs a conversion
  of the language (an array or an object to a string, a string to a number) that is
  not modelled: the parameter \<open>conv\<close> stands for the outcome of \<^verbatim>\<open><\<close> on such a pair,
  and every theorem holds whatever it is.
\<close>

fun code_units_less :: "string \<Rightarrow> string \<Rightarrow> bool" where
  "code_units_less [] [] = False"
| "code_units_less [] (b # bs) = True"
| "code_units_less (a # as) [] = False"
| "code_units_less (a # as) (b # bs) =
     (if (of_char a :: nat) < of_char b then True
      else if (of_char b :: nat) < of_char a then False
      else code_units_less as bs)"

fun numeric :: "json \<Rightarrow> bool" where
  "numeric JNull = True"
| "numeric (JBool _) = True"
| "numeric (JNum _) = True"
| "numeric _ = False"

fun to_number :: "json \<Rightarrow> int" where
  "to_number (JBool b) = (if b then 1 else 0)"
| "to_number (JNum n) = n"
| "to_number _ = 0"

fun js_less :: "(json \<Rightarrow> json \<Rightarrow> bool) \<Rightarrow> json option \<Rightarrow> json option \<Rightarrow> bool" where
  "js_less conv None _ = False"
| "js_less conv _ None = False"
| "js_less conv (Some (JStr a)) (Some (JStr b)) = code_units_less a b"
| "js_less conv (Some x) (Some y) =
     (if numeric x \<and> numeric y then to_number x < to_number y else conv x y)"

text \<open>
  The comparator of \<^verbatim>\<open>_sortDocuments\<close>; \<^verbatim>\<open>a[key] > b[key]\<close> is \<^verbatim>\<open>b[key] < a[key]\<close>.
  \<^verbatim>\<open>
  (a, b) => {
      for (const [key, direction] of Object.entries(sort)) {
          if (a[key] < b[key]) return direction === 1 ? -1 : 1;
          if (a[key] > b[key]) return direction === 1 ? 1 : -1;
      }
      return 0;
  }
  \<close>
\<close>

fun compareDocuments ::
  "(json \<Rightarrow> json \<Rightarrow> bool) \<Rightarrow> (string \<times> json) list \<Rightarrow> document \<Rightarrow> document \<Rightarrow> int" where
  "compareDocuments conv [] a b = 0"
| "compareDocuments conv ((key, direction) # rest) a b =
     (if js_less conv (lookup a key) (lookup b key) then (if direction = JNum 1 then - 1 else 1)
      else if js_less conv (lookup b key) (lookup a key) then (if direction = JNum 1 then 1 else - 1)
      else compareDocuments conv rest a b)"

text \<open>
  \<^verbatim>\<open>Array.prototype.sort\<close> is a stable sort: with a comparator that is consistent on the
  elements, its result is the one stable insertion gives. (With an inconsistent
  comparator the language leaves the order to the implementation.)
\<close>

fun insert_sorted :: "('a \<Rightarrow> 'a \<Rightarrow> int) \<Rightarrow> 'a \<Rightarrow> 'a list \<Rightarrow> 'a list" where
  "insert_sorted cmp x [] = [x]"
| "insert_sorted cmp x (y # ys) =
     (if cmp x y \<le> 0 then x # y # ys else y # insert_sorted cmp x ys)"

definition array_sort :: "('a \<Rightarrow> 'a \<Rightarrow> int) \<Rightarrow> 'a list \<Rightarrow> 'a list" where
  "array_sort cmp xs = foldr (insert_sorted cmp) xs []"

definition sortDocuments ::
  "(json \<Rightarrow> json \<Rightarrow> bool) \<Rightarrow> document list \<Rightarrow> (string \<times> json) list \<Rightarrow> document list" where
  "sortDocuments conv documents sort_spec = array_sort (compareDocuments conv sort_spec) documents"

section \<open>Find, findOne, count\<close>

text \<open>
  \<^verbatim>\<open>xs.slice(start, end)\<close> on integers: a negative index counts from the end, and
  both indices are clipped to the length.
\<close>

definition slice :: "'a list \<Rightarrow> int \<Rightarrow> int \<Rightarrow> 'a list" where
  "slice xs start stop =
     (let len = int (length xs);
          k = (if start < 0 then max (len + start) 0 else min start len);
          final = (if stop < 0 then max (len + stop) 0 else min stop len)
      in take (nat (final - k)) (drop (nat k) xs))"

text \<open>
  The options of \<^verbatim>\<open>find\<close>. A sort specification is the list of its entries;
  \<^verbatim>\<open>limit\<close> and \<^verbatim>\<open>skip\<close> are integers when present.
\<close>

record find_options =
  opt_sort :: "(string \<times> json) list option"
  opt_limit :: "int option"
  opt_skip :: "int option"

definition no_options :: find_options where
  "no_options = \<lparr>opt_sort = None, opt_limit = None, opt_skip = None\<rparr>"

text \<open>
  \<^verbatim>\<open>
  if (options.limit) {
      const skip = options.skip || 0;
      results = results.slice(skip, skip + options.limit);
  }
  \<close>
  A limit of 0 is falsy, as an absent one is.
\<close>

definition paginate :: "find_options \<Rightarrow> 'a list \<Rightarrow> 'a list" where
  "paginate options results =
     (case opt_limit options of
        None \<Rightarrow> results
      | Some limit \<Rightarrow>
          (if limit = 0 then results
           else let skip = (case opt_skip options of None \<Rightarrow> 0 | Some s \<Rightarrow> s)
                in slice results skip (skip + limit)))"

type_synonym find_result = "document list \<times> nat"

definition find_op ::
  "(json \<Rightarrow> json \<Rightarrow> bool) \<Rightarrow> string \<Rightarrow> (string \<times> json) list \<Rightarrow> find_options \<Rightarrow> engine
     \<Rightarrow> (error_code + find_result) \<times> engine" where
  "find_op conv collectionName query options e =
     (case readDatabase e of
        (Inl err, e1) \<Rightarrow> (Inl err, e1)
      | (Inr db, e1) \<Rightarrow>
          (case lookup db collectionName of
             None \<Rightarrow> (Inl COLLECTION_NOT_FOUND, e1)
           | Some stored \<Rightarrow>
               (let results = filter (\<lambda>doc. matchesQuery doc query) stored;
                    results = (case opt_sort options of
                                 Some sort_spec \<Rightarrow> sortDocuments conv results sort_spec
                               | None \<Rightarrow> results);
                    results = paginate options results
                in (Inr (results, length results), e1))))"

definition findOne ::
  "(json \<Rightarrow> json \<Rightarrow> bool) \<Rightarrow> string \<Rightarrow> (string \<times> json) list \<Rightarrow> engine
     \<Rightarrow> (error_code + document option \<times> nat) \<times> engine" where
  "findOne conv collectionName query e =
     (case find_op conv collectionName query (no_options\<lparr>opt_limit := Some 1\<rparr>) e of
        (Inl err, e1) \<Rightarrow> (Inl err, e1)
      | (Inr (data, n), e1) \<Rightarrow>
          (Inr (case data of [] \<Rightarrow> None | d # _ \<Rightarrow> Some d,
                if length data \<noteq> 0 then 1 else 0), e1))"

definition count_op ::
  "(json \<Rightarrow> json \<Rightarrow> bool) \<Rightarrow> string \<Rightarrow> (string \<times> json) list \<Rightarrow> engine
     \<Rightarrow> (error_code + nat) \<times> engine" where
  "count_op conv collectionName query e =
     (case find_op conv collectionName query no_options e of
        (Inl err, e1) \<Rightarrow> (Inl err, e1)
      | (Inr (data, n), e1) \<Rightarrow> (Inr n, e1))"

section \<open>Update and delete\<close>

record update_options =
  multi :: bool
  upsert :: bool

text \<open>
  \<^verbatim>\<open>{...doc, ...update, _updatedAt: timestamp, _id: doc._id}\<close>. When the document has
  no \<^verbatim>\<open>_id\<close> the new object's \<^verbatim>\<open>_id\<close> is \<^verbatim>\<open>undefined\<close>, and \<^verbatim>\<open>JSON.stringify\<close> leaves
  such a property out of the file.
\<close>

definition updatedDoc :: "document \<Rightarrow> document \<Rightarrow> string \<Rightarrow> document" where
  "updatedDoc doc patch timestamp =
     (let merged = AList.update ''_updatedAt'' (JStr timestamp) (spread doc patch)
      in case lookup doc ''_id'' of
           Some v \<Rightarrow> AList.update ''_id'' v merged
         | None \<Rightarrow> AList.delete ''_id'' merged)"

text \<open>
  The \<^verbatim>\<open>map\<close> over the collection, with the counter \<^verbatim>\<open>updateCount\<close> that its
  callback increments: the result is the new collection and the final count.
\<close>

fun updateLoop ::
  "(string \<times> json) list \<Rightarrow> document \<Rightarrow> update_options \<Rightarrow> string \<Rightarrow> nat \<Rightarrow> document list
     \<Rightarrow> document list \<times> nat" where
  "updateLoop query patch options timestamp updateCount [] = ([], updateCount)"
| "updateLoop query patch options timestamp updateCount (doc # docs) =
     (if matchesQuery doc query \<and> (multi options \<or> updateCount = 0)
      then (let (docs', n) = updateLoop query patch options timestamp (updateCount + 1) docs
            in (updatedDoc doc patch timestamp # docs', n))
      else (let (docs', n) = updateLoop query patch options timestamp updateCount docs
            in (doc # docs', n)))"

definition update_op ::
  "string \<Rightarrow> (string \<times> json) list \<Rightarrow> document \<Rightarrow> update_options \<Rightarrow> string \<Rightarrow> engine
     \<Rightarrow> (error_code + nat \<times> nat) \<times> engine" where
  "update_op collectionName query patch options timestamp e =
     (case readDatabase e of
        (Inl err, e1) \<Rightarrow> (Inl err, e1)
      | (Inr db, e1) \<Rightarrow>
          (case lookup db collectionName of
             None \<Rightarrow> (Inl COLLECTION_NOT_FOUND, e1)
           | Some stored \<Rightarrow>
               (let (docs', updateCount) = updateLoop query patch options timestamp 0 stored in
                if updateCount = 0 \<and> \<not> upsert options then (Inl DOCUMENT_NOT_FOUND, e1)
                else case writeDatabase (AList.update collectionName docs' db) e1 of
                       (Inl err, e2) \<Rightarrow> (Inl err, e2)
                     | (Inr _, e2) \<Rightarrow> (Inr (updateCount, updateCount), e2))))"

text \<open>The options of \<^verbatim>\<open>delete\<close> hold the flag \<^verbatim>\<open>multi\<close>, which the body never reads.\<close>

record delete_options =
  delete_multi :: bool

definition delete_op ::
  "string \<Rightarrow> (string \<times> json) list \<Rightarrow> delete_options \<Rightarrow> engine \<Rightarrow> (error_code + nat) \<times> engine" where
  "delete_op collectionName query options e =
     (case readDatabase e of
        (Inl err, e1) \<Rightarrow> (Inl err, e1)
      | (Inr db, e1) \<Rightarrow>
          (case lookup db collectionName of
             None \<Rightarrow> (Inl COLLECTION_NOT_FOUND, e1)
           | Some stored \<Rightarrow>
               (let originalLength = length stored;
                    remaining = filter (\<lambda>doc. \<not> matchesQuery doc query) stored;
                    deletedCount = originalLength - length remaining
                in if deletedCount = 0 then (Inl DOCUMENT_NOT_FOUND, e1)
                   else case writeDatabase (AList.update collectionName remaining db) e1 of
                          (Inl err, e2) \<Rightarrow> (Inl err, e2)
                        | (Inr _, e2) \<Rightarrow> (Inr deletedCount, e2))))"

section \<open>Statistics\<close>

text \<open>
  \<open>byteLength docs\<close> stands for \<^verbatim>\<open>Buffer.byteLength(JSON.stringify(documents), 'utf8')\<close>,
  the size of the serialised collection, which the serialiser decides.
\<close>

definition getStats ::
  "(document list \<Rightarrow> nat) \<Rightarrow> engine \<Rightarrow> (error_code + (string \<times> nat \<times> nat) list \<times> nat) \<times> engine" where
  "getStats byteLength e =
     (case readDatabase e of
        (Inl err, e1) \<Rightarrow> (Inl err, e1)
      | (Inr db, e1) \<Rightarrow>
          (Inr (map (\<lambda>(collectionName, documents).
                      (collectionName, length documents, byteLength documents)) db,
                length db), e1))"

section \<open>Concurrent inserts\<close>

text \<open>
  An \<^verbatim>\<open>insert\<close> in flight. The source takes the mutex inside \<^verbatim>\<open>_readDatabase\<close> and
  releases it when the read is done, and takes it again inside \<^verbatim>\<open>_writeDatabase\<close>:
  the read and the write of one insert are each done under the mutex, and between them
  the insert holds its own modified copy of the database and no lock. So an insert is
  suspended either in \<^verbatim>\<open>await this._readDatabase()\<close> or in
  \<^verbatim>\<open>await this._writeDatabase(db)\<close>, and each resumption is one step that no other
  operation interrupts.
\<close>

datatype insert_task =
    AwaitsRead string "document list" string "nat \<Rightarrow> string"
  | AwaitsWrite database insert_result
  | Settled "error_code + insert_result"

definition insert_call :: "string \<Rightarrow> insert_arg \<Rightarrow> string \<Rightarrow> (nat \<Rightarrow> string) \<Rightarrow> insert_task" where
  "insert_call collectionName arg timestamp gen =
     (let documents = normalize arg in
      if length documents = 0 then Settled (Inl INVALID_INPUT)
      else AwaitsRead collectionName documents timestamp gen)"

fun resume :: "insert_task \<Rightarrow> engine \<Rightarrow> insert_task \<times> engine" where
  "resume (AwaitsRead collectionName documents timestamp gen) e =
     (case readDatabase e of
        (Inl err, e1) \<Rightarrow> (Settled (Inl err), e1)
      | (Inr db, e1) \<Rightarrow>
          (case lookup db collectionName of
             None \<Rightarrow> (Settled (Inl COLLECTION_NOT_FOUND), e1)
           | Some stored \<Rightarrow>
               (let added = documentsWithMetadata timestamp gen documents in
                (AwaitsWrite (AList.update collectionName (stored @ added) db)
                   (length added, map (\<lambda>doc. lookup doc ''_id'') added), e1))))"
| "resume (AwaitsWrite db result) e =
     (case writeDatabase db e of
        (Inl err, e1) \<Rightarrow> (Settled (Inl err), e1)
      | (Inr _, e1) \<Rightarrow> (Settled (Inr result), e1))"
| "resume (Settled r) e = (Settled r, e)"

text \<open>
  A schedule names, step by step, the task that the mutex lets through next.
\<close>

fun run :: "nat list \<Rightarrow> insert_task list \<times> engine \<Rightarrow> insert_task list \<times> engine" where
  "run [] state = state"
| "run (i # schedule) (tasks, e) =
     (if i < length tasks
      then (let (t, e1) = resume (tasks ! i) e in run schedule (tasks[i := t], e1))
      else run schedule (tasks, e))"

section \<open>The composite key order of the specification\<close>

text \<open>
  The order that the specification asks of a sorted result, in its own words: the
  natural ordering of a field's value type (numbers by magnitude, strings
  lexicographically by code unit), fields taken in the order of the sort
  specification, ascending where the direction is 1 and descending otherwise, ties
  falling through to the next field. \<open>composite_before spec a b\<close> says that \<open>a\<close> may
  stand before \<open>b\<close>.
\<close>

definition code_unit_order :: "(char \<times> char) set" where
  "code_unit_order = {(x, y). (of_char x :: nat) < of_char y}"

fun natural_less :: "json option \<Rightarrow> json option \<Rightarrow> bool" where
  "natural_less (Some (JNum a)) (Some (JNum b)) = (a < b)"
| "natural_less (Some (JStr a)) (Some (JStr b)) = ((a, b) \<in> lexord code_unit_order)"
| "natural_less _ _ = False"

fun composite_before :: "(string \<times> json) list \<Rightarrow> document \<Rightarrow> document \<Rightarrow> bool" where
  "composite_before [] a b = True"
| "composite_before ((key, direction) # rest) a b =
     (if natural_less (lookup a key) (lookup b key) then direction = JNum 1
      else if natural_less (lookup b key) (lookup a key) then direction \<noteq> JNum 1
      else composite_before rest a b)"

text \<open>
  A field has one value type over a list of documents when every document holds a
  number in it, or every document holds a string in it.
\<close>

fun is_number :: "json option \<Rightarrow> bool" where
  "is_number (Some (JNum n)) = True"
| "is_number _ = False"

fun is_string :: "json option \<Rightarrow> bool" where
  "is_string (Some (JStr s)) = True"
| "is_string _ = False"

definition same_kind :: "document list \<Rightarrow> string \<Rightarrow> bool" where
  "same_kind docs key \<longleftrightarrow>
     list_all (\<lambda>d. is_number (lookup d key)) docs \<or> list_all (\<lambda>d. is_string (lookup d key)) docs"

section \<open>Example states\<close>

text \<open>
  An initialized engine over a file that holds \<open>db\<close>, with a working file system and
  no write made so far; and documents as \<^verbatim>\<open>insert\<close> leaves them.
\<close>

definition opened :: "database \<Rightarrow> engine" where
  "opened db = \<lparr>initialized = True, content = Stored db, writable = True, writes = 0\<rparr>"

definition numbered :: "int \<Rightarrow> document" where
  "numbered n = [(''n'', JNum n)]"

definition member :: "string \<Rightarrow> string \<Rightarrow> document" where
  "member ident role =
     [(''role'', JStr role), (''_id'', JStr ident),
      (''_createdAt'', JStr ''t0''), (''_updatedAt'', JStr ''t0'')]"

section \<open>Properties of the query matcher\<close>

lemma strict_equal_iff: "strict_equal x v \<longleftrightarrow> primitive v \<and> x = Some v"
  by (cases "(x, v)" rule: strict_equal.cases) auto

lemma matchesLoop_iff:
  "matchesLoop doc query \<longleftrightarrow> (\<forall>(k, v) \<in> set query. primitive v \<and> lookup doc k = Some v)"
  by (induction doc query rule: matchesLoop.induct) (auto simp: strict_equal_iff)

text \<open>
  Claim C3, as the code has it. The matcher returns true if and only if the filter is
  empty or every pair of the filter holds a primitive value (null, a boolean, a number
  or a string) that the document's field holds too, with the same type and the same
  value. A structured filter value (an array or an object) is never evaluated as a
  query operator, and it never matches: it is compared by reference with the freshly
  parsed field, not by structure.
\<close>

theorem matchesQuery_primitive_equality:
  "matchesQuery doc query \<longleftrightarrow>
     query = [] \<or> (\<forall>(k, v) \<in> set query. primitive v \<and> lookup doc k = Some v)"
  by (auto simp: matchesQuery_def matchesLoop_iff)

theorem matchesQuery_primitive_equality_witness:
  "matchesQuery [(''name'', JStr ''Kofi''), (''age'', JNum 30)] [(''age'', JNum 30)]
   \<and> \<not> matchesQuery [(''name'', JStr ''Kofi''), (''age'', JNum 30)] [(''age'', JStr ''30'')]
   \<and> \<not> matchesQuery [(''age'', JObj [(''$gte'', JNum 25)])] [(''age'', JObj [(''$gte'', JNum 25)])]"
  using matchesQuery_primitive_equality
          [of "[(''name'', JStr ''Kofi''), (''age'', JNum 30)]" "[(''age'', JNum 30)]"]
        matchesQuery_primitive_equality
          [of "[(''name'', JStr ''Kofi''), (''age'', JNum 30)]" "[(''age'', JStr ''30'')]"]
        matchesQuery_primitive_equality
          [of "[(''age'', JObj [(''$gte'', JNum 25)])]" "[(''age'', JObj [(''$gte'', JNum 25)])]"]
  by (simp add: lookup_def)

text \<open>
  The claim as the specification words it fails: the filter's only pair is equal, in
  type and value, to the document's field, and the matcher returns false.
\<close>

theorem matchesQuery_structured_counterexample:
  "lookup [(''age'', JObj [(''$gte'', JNum 25)])] ''age'' = Some (JObj [(''$gte'', JNum 25)])
   \<and> matchesQuery [(''age'', JObj [(''$gte'', JNum 25)])]
        [(''age'', JObj [(''$gte'', JNum 25)])] = False"
  by (simp add: lookup_def matchesQuery_def)

section \<open>Properties of reading and writing\<close>

lemma readDatabase_stored:
  "initialized e \<Longrightarrow> content e = Stored db \<Longrightarrow> readDatabase e = (Inr db, e)"
  by (simp add: readDatabase_def)

lemma readDatabase_frame: "snd (readDatabase e) = e"
  by (simp add: readDatabase_def split: file_content.splits)

lemma writeDatabase_ok:
  "initialized e \<Longrightarrow> writable e \<Longrightarrow>
     writeDatabase db e = (Inr (), e\<lparr>content := Stored db, writes := writes e + 1\<rparr>)"
  by (simp add: writeDatabase_def)

lemma opened_simps:
  "initialized (opened db)" "writable (opened db)" "content (opened db) = Stored db"
  "writes (opened db) = 0"
  by (simp_all add: opened_def)

section \<open>The lifecycle guard\<close>

lemma init_outcome:
  "(fst (init e) = Inr () \<longrightarrow> initialized (snd (init e)))
   \<and> (fst (init e) \<noteq> Inr () \<longrightarrow> initialized (snd (init e)) = initialized e)"
  by (simp add: init_def split: file_content.splits)

text \<open>
  Claim C9, as the code has it. An engine is not initialized when it is new and after
  \<^verbatim>\<open>close\<close>. On an engine that is not initialized, dropCollection, find, findOne, count,
  update, delete and getStats fail with \<open>NOT_INITIALIZED\<close> for every argument, and
  leave the state as it is. createCollection and insert validate their argument before
  they look at the state: createCollection fails with \<open>INVALID_INPUT\<close> on a name that
  is empty or white space and with \<open>NOT_INITIALIZED\<close> on every other name; insert fails
  with \<open>INVALID_INPUT\<close> on an empty array of documents and with \<open>NOT_INITIALIZED\<close> on
  every other argument.
\<close>

theorem uninitialized_operations_fail:
  assumes "\<not> initialized e"
  shows "\<not> initialized (new_engine f w) \<and> \<not> initialized (snd (close e'))
    \<and> dropCollection c e = (Inl NOT_INITIALIZED, e)
    \<and> find_op conv c q opts e = (Inl NOT_INITIALIZED, e)
    \<and> findOne conv c q e = (Inl NOT_INITIALIZED, e)
    \<and> count_op conv c q e = (Inl NOT_INITIALIZED, e)
    \<and> update_op c q p uopts ts e = (Inl NOT_INITIALIZED, e)
    \<and> delete_op c q dopts e = (Inl NOT_INITIALIZED, e)
    \<and> getStats byteLength e = (Inl NOT_INITIALIZED, e)
    \<and> createCollection c e = (Inl (if blank c then INVALID_INPUT else NOT_INITIALIZED), e)
    \<and> insert_op c arg ts gen e =
          (Inl (if normalize arg = [] then INVALID_INPUT else NOT_INITIALIZED), e)"
  using assms
  by (simp add: new_engine_def close_def readDatabase_def dropCollection_def find_op_def
      findOne_def count_op_def update_op_def delete_op_def getStats_def createCollection_def
      insert_op_def)

text \<open>
  A life of the engine: new over an absent file, it refuses find; initialized, it
  answers (the collection is not there); closed, it refuses again.
\<close>

theorem uninitialized_operations_fail_witness:
  "find_op (\<lambda>x y. False) ''users'' [] no_options (new_engine Missing True)
       = (Inl NOT_INITIALIZED, new_engine Missing True)
   \<and> fst (find_op (\<lambda>x y. False) ''users'' [] no_options (snd (init (new_engine Missing True))))
       = Inl COLLECTION_NOT_FOUND
   \<and> find_op (\<lambda>x y. False) ''users'' [] no_options
         (snd (close (snd (init (new_engine Missing True)))))
       = (Inl NOT_INITIALIZED, snd (close (snd (init (new_engine Missing True)))))
   \<and> createCollection ''users'' (snd (close (snd (init (new_engine Missing True)))))
       = (Inl NOT_INITIALIZED, snd (close (snd (init (new_engine Missing True)))))
   \<and> insert_op ''users'' (Single [(''name'', JStr ''Kofi'')]) ''t1'' (\<lambda>i. ''id1'')
         (snd (close (snd (init (new_engine Missing True)))))
       = (Inl NOT_INITIALIZED, snd (close (snd (init (new_engine Missing True)))))"
proof -
  let ?closed = "snd (close (snd (init (new_engine Missing True))))"
  have fresh: "\<not> initialized (new_engine Missing True)"
    by (simp add: new_engine_def)
  have closed: "\<not> initialized ?closed"
    by (simp add: close_def)
  have name: "\<not> blank ''users''"
    by (simp add: blank_def js_whitespace_def)
  have between: "fst (find_op (\<lambda>x y. False) ''users'' [] no_options
      (snd (init (new_engine Missing True)))) = Inl COLLECTION_NOT_FOUND"
    by (simp add: find_op_def readDatabase_def init_def new_engine_def lookup_def)
  show ?thesis
    using name between
      uninitialized_operations_fail [OF fresh, where c = "''users''" and conv = "\<lambda>x y. False"
        and q = "[]" and opts = no_options]
      uninitialized_operations_fail [OF closed, where c = "''users''" and conv = "\<lambda>x y. False"
        and q = "[]" and opts = no_options and arg = "Single [(''name'', JStr ''Kofi'')]"
        and ts = "''t1''" and gen = "\<lambda>i. ''id1''"]
    by (simp add: normalize_def)
qed

text \<open>
  The claim as the specification words it fails: on a new engine, createCollection
  with an empty name and insert with no document fail with \<open>INVALID_INPUT\<close>, not with
  \<open>NOT_INITIALIZED\<close>.
\<close>

theorem uninitialized_invalid_input_counterexample:
  "\<not> initialized (new_engine (Stored []) True)
   \<and> fst (createCollection '''' (new_engine (Stored []) True)) = Inl INVALID_INPUT
   \<and> fst (insert_op ''users'' (Batch []) ''t1'' (\<lambda>i. ''id1'') (new_engine (Stored []) True))
       = Inl INVALID_INPUT"
  by (simp add: new_engine_def createCollection_def blank_def insert_op_def normalize_def)

section \<open>Read-only operations\<close>

lemma find_op_frame: "snd (find_op conv c q opts e) = e"
  using readDatabase_frame [of e]
  by (cases "readDatabase e") (auto simp: find_op_def Let_def split: sum.splits option.splits)

text \<open>
  Claim C10. find, findOne, count and getStats return the state they were given,
  whether they succeed or fail: the content of the file is the same, and no call of
  \<^verbatim>\<open>fs.writeFile\<close> has been made. This holds for every state, initialized or not.
\<close>

theorem read_operations_frame:
  "snd (find_op conv c q opts e) = e \<and> snd (findOne conv c q e) = e
   \<and> snd (count_op conv c q e) = e \<and> snd (getStats byteLength e) = e"
proof -
  have 1: "snd (find_op conv c q opts' e) = e" for opts' by (rule find_op_frame)
  have 2: "snd (findOne conv c q e) = e"
    using 1 [of "no_options\<lparr>opt_limit := Some 1\<rparr>"]
    by (cases "find_op conv c q (no_options\<lparr>opt_limit := Some 1\<rparr>) e")
       (auto simp: findOne_def split: sum.splits)
  have 3: "snd (count_op conv c q e) = e"
    using 1 [of no_options]
    by (cases "find_op conv c q no_options e") (auto simp: count_op_def split: sum.splits)
  have 4: "snd (getStats byteLength e) = e"
    using readDatabase_frame [of e]
    by (cases "readDatabase e") (auto simp: getStats_def split: sum.splits)
  from 1 2 3 4 show ?thesis by simp
qed


section \<open>Pagination\<close>

lemma slice_window:
  "0 \<le> s \<Longrightarrow> 0 < l \<Longrightarrow> slice xs s (s + l) = take (nat l) (drop (nat s) xs)"
  by (auto simp: slice_def Let_def min_def)

text \<open>
  Claim C4, as the code has it. \<open>rs\<close> is the filtered (and, with a sort option,
  sorted) result and \<open>skip\<close> the skip option, 0 when absent. When the limit is present
  and positive and the skip is not negative, find returns the window from \<open>skip\<close> to
  \<open>skip + limit\<close> of \<open>rs\<close>, clipped to its length, and the length of that window. When
  the limit is absent or 0, find returns all of \<open>rs\<close>, whatever the skip option is:
  the skip is read only under a limit.
\<close>

theorem find_pagination_window:
  assumes "initialized e" and "content e = Stored db" and "lookup db c = Some stored"
    and "rs = (case opt_sort opts of
                 Some sort_spec \<Rightarrow>
                   sortDocuments conv (filter (\<lambda>d. matchesQuery d q) stored) sort_spec
               | None \<Rightarrow> filter (\<lambda>d. matchesQuery d q) stored)"
    and "skip = (case opt_skip opts of None \<Rightarrow> 0 | Some s \<Rightarrow> s)"
  shows "(opt_limit opts = Some l \<and> 0 < l \<and> 0 \<le> skip \<longrightarrow>
            find_op conv c q opts e =
              (Inr (take (nat l) (drop (nat skip) rs), min (nat l) (length rs - nat skip)), e))
       \<and> (opt_limit opts = None \<or> opt_limit opts = Some 0 \<longrightarrow>
            find_op conv c q opts e = (Inr (rs, length rs), e))"
  using assms
  by (auto simp: find_op_def readDatabase_stored paginate_def slice_window Let_def
      split: option.splits)

text \<open>
  The example of the specification: skip 1 and limit 2 on five documents, without a
  sort option, give the documents at positions 1 and 2.
\<close>

theorem find_pagination_window_witness:
  "find_op (\<lambda>x y. False) ''items'' []
      \<lparr>opt_sort = None, opt_limit = Some 2, opt_skip = Some 1\<rparr>
      (opened [(''items'', map numbered [0, 1, 2, 3, 4])])
   = (Inr ([numbered 1, numbered 2], 2), opened [(''items'', map numbered [0, 1, 2, 3, 4])])"
proof -
  let ?db = "[(''items'', map numbered [0, 1, 2, 3, 4])]"
  let ?opts = "\<lparr>opt_sort = None, opt_limit = Some 2, opt_skip = Some 1\<rparr>"
  have h1: "initialized (opened ?db)" and h2: "content (opened ?db) = Stored ?db"
    by (simp_all add: opened_simps)
  have h3: "lookup ?db ''items'' = Some (map numbered [0, 1, 2, 3, 4])"
    by (simp add: lookup_def)
  have h4: "map numbered [0, 1, 2, 3, 4] =
      (case opt_sort ?opts of
         Some sort_spec \<Rightarrow>
           sortDocuments (\<lambda>x y. False)
             (filter (\<lambda>d. matchesQuery d []) (map numbered [0, 1, 2, 3, 4])) sort_spec
       | None \<Rightarrow> filter (\<lambda>d. matchesQuery d []) (map numbered [0, 1, 2, 3, 4]))"
    by (simp add: matchesQuery_def)
  have h5: "(1::int) = (case opt_skip ?opts of None \<Rightarrow> 0 | Some s \<Rightarrow> s)"
    by simp
  show ?thesis
    using find_pagination_window [OF h1 h2 h3 h4 h5, of 2] by simp
qed

text \<open>
  The claim as the specification words it fails: with a skip of 1 and no limit, find
  on five documents returns all five, from position 0 on.
\<close>

theorem find_skip_without_limit_counterexample:
  "fst (find_op (\<lambda>x y. False) ''items'' []
          \<lparr>opt_sort = None, opt_limit = None, opt_skip = Some 1\<rparr>
          (opened [(''items'', map numbered [0, 1, 2, 3, 4])]))
   = Inr ([numbered 0, numbered 1, numbered 2, numbered 3, numbered 4], 5)"
  by (simp add: find_op_def readDatabase_def opened_def lookup_def matchesQuery_def paginate_def)

section \<open>Properties of delete\<close>

lemma deleted_count:
  "length xs - length (filter (\<lambda>x. \<not> P x) xs) = length (filter P xs)"
  using sum_length_filter_compl [of P xs] by simp

lemma nothing_deleted:
  "length xs \<le> length (filter (\<lambda>x. \<not> P x) xs) \<longleftrightarrow> (\<forall>x \<in> set xs. \<not> P x)"
proof -
  have "length (filter P xs) = 0 \<longleftrightarrow> (\<forall>x \<in> set xs. \<not> P x)"
    by (simp add: filter_empty_conv)
  with sum_length_filter_compl [of P xs] show ?thesis by arith
qed

text \<open>
  Claim C7. On an initialized engine whose collection exists (the file system
  accepting the write), delete fails with \<open>DOCUMENT_NOT_FOUND\<close> and leaves the state
  as it is when no document matches the filter; otherwise it returns the number of
  matching documents and stores the collection without any of them. The right-hand
  side does not mention the options: the flag \<^verbatim>\<open>multi\<close> changes nothing.
\<close>

theorem delete_removes_every_match:
  assumes "initialized e" and "writable e" and "content e = Stored db"
    and "lookup db c = Some stored"
  shows "delete_op c q dopts e =
     (if \<forall>d \<in> set stored. \<not> matchesQuery d q then (Inl DOCUMENT_NOT_FOUND, e)
      else (Inr (length (filter (\<lambda>d. matchesQuery d q) stored)),
            e\<lparr>content := Stored (AList.update c (filter (\<lambda>d. \<not> matchesQuery d q) stored) db),
              writes := writes e + 1\<rparr>))"
  using assms
  by (simp add: delete_op_def readDatabase_stored writeDatabase_ok deleted_count
      nothing_deleted Let_def)

theorem delete_removes_every_match_witness:
  "delete_op ''users'' [(''role'', JStr ''admin'')] \<lparr>delete_multi = False\<rparr>
      (opened [(''users'', [member ''a'' ''admin'', member ''b'' ''guest'', member ''c'' ''admin''])])
   = (Inr 2, (opened [(''users'', [member ''b'' ''guest''])])\<lparr>writes := 1\<rparr>)"
proof -
  let ?docs = "[member ''a'' ''admin'', member ''b'' ''guest'', member ''c'' ''admin'']"
  let ?db = "[(''users'', ?docs)]"
  have h3: "content (opened ?db) = Stored ?db" by (simp add: opened_simps)
  have h4: "lookup ?db ''users'' = Some ?docs" by (simp add: lookup_def)
  show ?thesis
    using delete_removes_every_match [OF opened_simps(1) opened_simps(2) h3 h4,
        of "[(''role'', JStr ''admin'')]" "\<lparr>delete_multi = False\<rparr>"]
    by (simp add: matchesQuery_def member_def lookup_def opened_def)
qed


section \<open>Properties of update\<close>

lemma updateLoop_multi:
  "multi opts \<Longrightarrow> updateLoop q p opts ts n docs =
     (map (\<lambda>d. if matchesQuery d q then updatedDoc d p ts else d) docs,
      n + length (filter (\<lambda>d. matchesQuery d q) docs))"
  by (induction docs arbitrary: n) auto

lemma updateLoop_done:
  "\<not> multi opts \<Longrightarrow> 0 < n \<Longrightarrow> updateLoop q p opts ts n docs = (docs, n)"
  by (induction docs) auto

lemma updateLoop_no_match:
  "\<forall>d \<in> set docs. \<not> matchesQuery d q \<Longrightarrow> updateLoop q p opts ts n docs = (docs, n)"
  by (induction docs) auto

lemma updateLoop_first:
  "\<not> multi opts \<Longrightarrow> \<forall>x \<in> set pre. \<not> matchesQuery x q \<Longrightarrow> matchesQuery d q \<Longrightarrow>
     updateLoop q p opts ts 0 (pre @ d # post) = (pre @ updatedDoc d p ts # post, 1)"
  by (induction pre) (auto simp: updateLoop_done)

lemma lookup_spread:
  "distinct (map fst b) \<Longrightarrow>
     lookup (spread a b) k = (case lookup b k of Some v \<Rightarrow> Some v | None \<Rightarrow> lookup a k)"
proof (induction b arbitrary: a)
  case Nil
  then show ?case by (simp add: spread_def lookup_def)
next
  case (Cons kv b)
  obtain k1 v1 where kv: "kv = (k1, v1)" by (cases kv)
  from Cons.prems kv have d: "distinct (map fst b)" and nin: "k1 \<notin> fst ` set b" by auto
  have step: "spread a ((k1, v1) # b) = spread (AList.update k1 v1 a) b"
    by (simp add: spread_def)
  from nin have none: "lookup b k1 = None"
    by (simp add: lookup_def map_of_eq_None_iff)
  show ?case
    using Cons.IH [OF d, of "AList.update k1 v1 a"] none
    by (auto simp: step kv lookup_def update_conv' split: option.splits)
qed

lemma lookup_updatedDoc:
  "distinct (map fst p) \<Longrightarrow>
   lookup (updatedDoc d p ts) k =
     (if k = ''_id'' then lookup d ''_id''
      else if k = ''_updatedAt'' then Some (JStr ts)
      else case lookup p k of Some v \<Rightarrow> Some v | None \<Rightarrow> lookup d k)"
  using lookup_spread [of p d k]
  by (auto simp: updatedDoc_def Let_def lookup_def update_conv' delete_conv' split: option.splits)

lemma first_match_split:
  "\<exists>d \<in> set xs. P d \<Longrightarrow> \<exists>pre d post. xs = pre @ d # post \<and> (\<forall>x \<in> set pre. \<not> P x) \<and> P d"
  by (metis split_list_first_prop)

text \<open>
  Claim C6. On an initialized engine whose collection exists and holds at least one
  match (the file system accepting the write, the patch an object with distinct keys),
  update returns equal matched and modified counts \<open>n\<close> and stores a new collection
  \<open>docs'\<close>. With \<^verbatim>\<open>multi\<close> set, \<open>n\<close> is the number of matches and every match is
  replaced by its updated document. Without it, \<open>n\<close> is 1 and only the first match in
  collection order is replaced: the documents before it do not match, and those after
  it, matching or not, stay as they were. An updated document holds, field by field:
  its original \<^verbatim>\<open>_id\<close>, whatever the patch says; the one timestamp of the call in
  \<^verbatim>\<open>_updatedAt\<close>; the patch's value in every other field the patch names; and its old
  value in every field the patch does not name.
\<close>

theorem update_scoping_and_merge:
  assumes "initialized e" and "writable e" and "content e = Stored db"
    and "lookup db c = Some stored"
    and "\<exists>d \<in> set stored. matchesQuery d q" and "distinct (map fst p)"
  shows "\<exists>docs' n.
      update_op c q p opts ts e =
        (Inr (n, n), e\<lparr>content := Stored (AList.update c docs' db), writes := writes e + 1\<rparr>)
    \<and> n = (if multi opts then length (filter (\<lambda>d. matchesQuery d q) stored) else 1)
    \<and> (multi opts \<longrightarrow>
         docs' = map (\<lambda>d. if matchesQuery d q then updatedDoc d p ts else d) stored)
    \<and> (\<not> multi opts \<longrightarrow>
         (\<exists>pre d post. stored = pre @ d # post \<and> (\<forall>x \<in> set pre. \<not> matchesQuery x q)
            \<and> matchesQuery d q \<and> docs' = pre @ updatedDoc d p ts # post))
    \<and> (\<forall>d k. lookup (updatedDoc d p ts) k =
         (if k = ''_id'' then lookup d ''_id''
          else if k = ''_updatedAt'' then Some (JStr ts)
          else case lookup p k of Some v \<Rightarrow> Some v | None \<Rightarrow> lookup d k))"
proof (cases "multi opts")
  case True
  from assms(5) have pos: "length (filter (\<lambda>d. matchesQuery d q) stored) \<noteq> 0"
    by (simp add: filter_empty_conv)
  show ?thesis
    using assms(1-4) True pos lookup_updatedDoc [OF assms(6)]
    by (simp add: update_op_def readDatabase_stored writeDatabase_ok updateLoop_multi)
next
  case False
  from first_match_split [OF assms(5)] obtain pre d post where
    sp: "stored = pre @ d # post" "\<forall>x \<in> set pre. \<not> matchesQuery x q" "matchesQuery d q"
    by blast
  have loop: "updateLoop q p opts ts 0 stored = (pre @ updatedDoc d p ts # post, 1)"
    unfolding sp(1) by (rule updateLoop_first [OF False sp(2) sp(3)])
  have run: "update_op c q p opts ts e =
     (Inr (1, 1), e\<lparr>content := Stored (AList.update c (pre @ updatedDoc d p ts # post) db),
        writes := writes e + 1\<rparr>)"
    using assms(1-4) by (simp add: update_op_def readDatabase_stored writeDatabase_ok loop)
  show ?thesis
    apply (rule exI [of _ "pre @ updatedDoc d p ts # post"])
    apply (rule exI [of _ 1])
    using False sp run lookup_updatedDoc [OF assms(6)] by auto
qed

text \<open>
  The example of the specification: three documents match. Without \<^verbatim>\<open>multi\<close> the counts
  are 1 and only the first document changes; the patch names \<^verbatim>\<open>_id\<close>, and the document
  keeps its own. With \<^verbatim>\<open>multi\<close> the counts are 3.
\<close>

theorem update_scoping_and_merge_witness:
  "update_op ''users'' [(''role'', JStr ''admin'')] [(''age'', JNum 31), (''_id'', JStr ''forged'')]
      \<lparr>multi = False, upsert = False\<rparr> ''t9''
      (opened [(''users'', [member ''a'' ''admin'', member ''b'' ''admin'', member ''c'' ''admin''])])
   = (Inr (1, 1),
      (opened [(''users'',
         [[(''role'', JStr ''admin''), (''_id'', JStr ''a''), (''_createdAt'', JStr ''t0''),
           (''_updatedAt'', JStr ''t9''), (''age'', JNum 31)],
          member ''b'' ''admin'', member ''c'' ''admin''])])\<lparr>writes := 1\<rparr>)
   \<and> fst (update_op ''users'' [(''role'', JStr ''admin'')]
        [(''age'', JNum 31), (''_id'', JStr ''forged'')]
        \<lparr>multi = True, upsert = False\<rparr> ''t9''
        (opened [(''users'', [member ''a'' ''admin'', member ''b'' ''admin'', member ''c'' ''admin''])]))
     = Inr (3, 3)"
proof -
  let ?docs = "[member ''a'' ''admin'', member ''b'' ''admin'', member ''c'' ''admin'']"
  let ?db = "[(''users'', ?docs)]"
  let ?q = "[(''role'', JStr ''admin'')]"
  let ?p = "[(''age'', JNum 31), (''_id'', JStr ''forged'')]"
  have h3: "content (opened ?db) = Stored ?db" by (simp add: opened_simps)
  have h4: "lookup ?db ''users'' = Some ?docs" by (simp add: lookup_def)
  have h5: "\<exists>d \<in> set ?docs. matchesQuery d ?q"
    by (simp add: matchesQuery_def member_def lookup_def)
  have h6: "distinct (map fst ?p)" by simp
  note inst = update_scoping_and_merge [OF opened_simps(1) opened_simps(2) h3 h4 h5 h6]
  have m: "matchesQuery (member i ''admin'') ?q" for i
    by (simp add: matchesQuery_def member_def lookup_def)
  from inst [of "\<lparr>multi = True, upsert = False\<rparr>" "''t9''"]
  have many: "fst (update_op ''users'' ?q ?p \<lparr>multi = True, upsert = False\<rparr> ''t9'' (opened ?db))
      = Inr (3, 3)"
    by (auto simp: m)
  from inst [of "\<lparr>multi = False, upsert = False\<rparr>" "''t9''"]
  obtain docs' pre d post where
    res: "update_op ''users'' ?q ?p \<lparr>multi = False, upsert = False\<rparr> ''t9'' (opened ?db)
       = (Inr (1, 1), (opened ?db)\<lparr>content := Stored (AList.update ''users'' docs' ?db),
            writes := writes (opened ?db) + 1\<rparr>)"
    and sp: "?docs = pre @ d # post" "\<forall>x \<in> set pre. \<not> matchesQuery x ?q"
      "docs' = pre @ updatedDoc d ?p ''t9'' # post"
    by auto
  have "pre = []"
  proof (cases pre)
    case Nil
    then show ?thesis .
  next
    case (Cons x xs)
    with sp(1) have "x = member ''a'' ''admin''" by simp
    with sp(2) Cons m [of "''a''"] show ?thesis by simp
  qed
  with sp have "docs' = updatedDoc (member ''a'' ''admin'') ?p ''t9''
      # [member ''b'' ''admin'', member ''c'' ''admin'']"
    by simp
  then have one: "update_op ''users'' ?q ?p \<lparr>multi = False, upsert = False\<rparr> ''t9'' (opened ?db)
     = (Inr (1, 1),
        (opened [(''users'',
           [[(''role'', JStr ''admin''), (''_id'', JStr ''a''), (''_createdAt'', JStr ''t0''),
             (''_updatedAt'', JStr ''t9''), (''age'', JNum 31)],
            member ''b'' ''admin'', member ''c'' ''admin''])])\<lparr>writes := 1\<rparr>)"
    using res by (simp add: opened_def updatedDoc_def spread_def member_def lookup_def)
  from one many show ?thesis by simp
qed

section \<open>No match\<close>

text \<open>
  Claim C8. On an initialized engine whose collection exists and holds no match for
  the filter: delete fails with \<open>DOCUMENT_NOT_FOUND\<close>, and so does update without
  \<^verbatim>\<open>upsert\<close>; both leave the state as it is, so the file holds what it held and no call
  of \<^verbatim>\<open>fs.writeFile\<close> has been made. Update with \<^verbatim>\<open>upsert\<close> (the file system accepting
  the write) succeeds with counts 0: it writes the database back, and the file holds
  what it held, no document more.
\<close>

theorem no_match_not_found:
  assumes "initialized e" and "content e = Stored db" and "lookup db c = Some stored"
    and "\<forall>d \<in> set stored. \<not> matchesQuery d q"
  shows "delete_op c q dopts e = (Inl DOCUMENT_NOT_FOUND, e)
     \<and> (\<not> upsert opts \<longrightarrow> update_op c q p opts ts e = (Inl DOCUMENT_NOT_FOUND, e))
     \<and> (upsert opts \<and> writable e \<longrightarrow>
          update_op c q p opts ts e = (Inr (0, 0), e\<lparr>writes := writes e + 1\<rparr>))"
proof -
  have same: "AList.update c stored db = db"
    using assms(3) by (simp add: lookup_def update_triv)
  have e: "e\<lparr>content := Stored db\<rparr> = e" using assms(2) by simp
  have del: "delete_op c q dopts e = (Inl DOCUMENT_NOT_FOUND, e)"
    using assms
    by (simp add: delete_op_def readDatabase_stored nothing_deleted Let_def)
  have upd1: "\<not> upsert opts \<Longrightarrow> update_op c q p opts ts e = (Inl DOCUMENT_NOT_FOUND, e)"
    using assms(1-3) updateLoop_no_match [OF assms(4)]
    by (simp add: update_op_def readDatabase_stored)
  have upd2: "update_op c q p opts ts e = (Inr (0, 0), e\<lparr>writes := writes e + 1\<rparr>)"
    if "upsert opts" "writable e"
    using assms(1-3) updateLoop_no_match [OF assms(4)] same that e
    by (simp add: update_op_def readDatabase_stored writeDatabase_ok)
  show ?thesis
    using del upd1 upd2 by simp
qed

theorem no_match_not_found_witness:
  "delete_op ''users'' [(''role'', JStr ''owner'')] \<lparr>delete_multi = True\<rparr>
      (opened [(''users'', [member ''a'' ''admin'', member ''b'' ''guest''])])
    = (Inl DOCUMENT_NOT_FOUND, opened [(''users'', [member ''a'' ''admin'', member ''b'' ''guest''])])
   \<and> update_op ''users'' [(''role'', JStr ''owner'')] [(''age'', JNum 31)]
      \<lparr>multi = True, upsert = False\<rparr> ''t9''
      (opened [(''users'', [member ''a'' ''admin'', member ''b'' ''guest''])])
    = (Inl DOCUMENT_NOT_FOUND, opened [(''users'', [member ''a'' ''admin'', member ''b'' ''guest''])])
   \<and> update_op ''users'' [(''role'', JStr ''owner'')] [(''age'', JNum 31)]
      \<lparr>multi = True, upsert = True\<rparr> ''t9''
      (opened [(''users'', [member ''a'' ''admin'', member ''b'' ''guest''])])
    = (Inr (0, 0),
       (opened [(''users'', [member ''a'' ''admin'', member ''b'' ''guest''])])\<lparr>writes := 1\<rparr>)"
proof -
  let ?docs = "[member ''a'' ''admin'', member ''b'' ''guest'']"
  let ?db = "[(''users'', ?docs)]"
  let ?q = "[(''role'', JStr ''owner'')]"
  have h2: "content (opened ?db) = Stored ?db" by (simp add: opened_simps)
  have h3: "lookup ?db ''users'' = Some ?docs" by (simp add: lookup_def)
  have h4: "\<forall>d \<in> set ?docs. \<not> matchesQuery d ?q"
    by (simp add: matchesQuery_def member_def lookup_def)
  note inst = no_match_not_found [OF opened_simps(1) h2 h3 h4]
  show ?thesis
    using inst [of "\<lparr>delete_multi = True\<rparr>" "\<lparr>multi = True, upsert = False\<rparr>"
        "[(''age'', JNum 31)]" "''t9''"]
      inst [of "\<lparr>delete_multi = True\<rparr>" "\<lparr>multi = True, upsert = True\<rparr>"
        "[(''age'', JNum 31)]" "''t9''"]
    by (simp add: opened_simps)
qed


section \<open>Identity under update\<close>

text \<open>
  What holds of the reserved fields: an update never changes \<^verbatim>\<open>_id\<close>, and it leaves
  \<^verbatim>\<open>_createdAt\<close> alone when the patch does not name it.
\<close>

lemma updatedDoc_keeps_id:
  "distinct (map fst p) \<Longrightarrow> lookup (updatedDoc d p ts) ''_id'' = lookup d ''_id''"
  by (simp add: lookup_updatedDoc)

lemma updatedDoc_keeps_createdAt:
  "distinct (map fst p) \<Longrightarrow> lookup p ''_createdAt'' = None \<Longrightarrow>
     lookup (updatedDoc d p ts) ''_createdAt'' = lookup d ''_createdAt''"
  by (simp add: lookup_updatedDoc)

text \<open>
  Claim C2 fails on the code. A successful update whose patch names \<^verbatim>\<open>_createdAt\<close>
  stores the patch's value: the object literal of \<^verbatim>\<open>update\<close> restores \<^verbatim>\<open>_id\<close> after
  spreading the patch and does not restore \<^verbatim>\<open>_createdAt\<close>. Here the document was
  created at \<open>t0\<close>, and after the update the file says \<open>1999\<close>.
\<close>

theorem update_overwrites_createdAt:
  "update_op ''users'' [(''role'', JStr ''admin'')] [(''_createdAt'', JStr ''1999'')]
      \<lparr>multi = False, upsert = False\<rparr> ''t9'' (opened [(''users'', [member ''a'' ''admin''])])
   = (Inr (1, 1),
      (opened [(''users'',
         [[(''role'', JStr ''admin''), (''_id'', JStr ''a''), (''_createdAt'', JStr ''1999''),
           (''_updatedAt'', JStr ''t9'')]])])\<lparr>writes := 1\<rparr>)
   \<and> lookup (member ''a'' ''admin'') ''_createdAt'' = Some (JStr ''t0'')"
  by (simp add: update_op_def readDatabase_def writeDatabase_def lookup_def opened_def
      updatedDoc_def spread_def matchesQuery_def member_def)

section \<open>Concurrent inserts lose updates\<close>

text \<open>
  One insert alone is its call followed by its two resumptions: the steps of the
  concurrent model are the steps of \<^verbatim>\<open>insert\<close>.
\<close>

lemma insert_op_steps:
  "(case resume (insert_call c arg ts gen) e of
      (t1, e1) \<Rightarrow> resume t1 e1) =
   (Settled (fst (insert_op c arg ts gen e)), snd (insert_op c arg ts gen e))"
  by (auto simp: insert_call_def insert_op_def Let_def readDatabase_def writeDatabase_def
      split: sum.splits option.splits prod.splits file_content.splits)

text \<open>
  Two inserts that run one after the other leave two documents.
\<close>

lemma sequential_inserts_keep_both:
  "run [0, 0, 1, 1]
     ([insert_call ''users'' (Single [(''name'', JStr ''Kofi'')]) ''t1'' (\<lambda>i. ''id1''),
       insert_call ''users'' (Single [(''name'', JStr ''Jane'')]) ''t2'' (\<lambda>i. ''id2'')],
      opened [(''users'', [])])
   = ([Settled (Inr (1, [Some (JStr ''id1'')])), Settled (Inr (1, [Some (JStr ''id2'')]))],
      (opened [(''users'',
         [[(''name'', JStr ''Kofi''), (''_id'', JStr ''id1''),
           (''_createdAt'', JStr ''t1''), (''_updatedAt'', JStr ''t1'')],
          [(''name'', JStr ''Jane''), (''_id'', JStr ''id2''),
           (''_createdAt'', JStr ''t2''), (''_updatedAt'', JStr ''t2'')]])])\<lparr>writes := 2\<rparr>)"
  by (simp add: insert_call_def normalize_def readDatabase_def writeDatabase_def lookup_def
      documentsWithMetadata_def withMetadata_def enumerate_eq_zip opened_def)

text \<open>
  Claim C1 fails on the code. Two inserts are called in the same turn on an empty
  collection. The mutex hands the file first to the read of the first, then to the read
  of the second (it was queued while the first was reading), then to the two writes.
  Both inserts succeed, each reporting one document inserted, and the collection ends
  with one document, not two: the second write replaces the file with a copy that was
  read before the first write.
\<close>

theorem concurrent_inserts_lose_update:
  "run [0, 1, 0, 1]
     ([insert_call ''users'' (Single [(''name'', JStr ''Kofi'')]) ''t1'' (\<lambda>i. ''id1''),
       insert_call ''users'' (Single [(''name'', JStr ''Jane'')]) ''t2'' (\<lambda>i. ''id2'')],
      opened [(''users'', [])])
   = ([Settled (Inr (1, [Some (JStr ''id1'')])), Settled (Inr (1, [Some (JStr ''id2'')]))],
      (opened [(''users'',
         [[(''name'', JStr ''Jane''), (''_id'', JStr ''id2''),
           (''_createdAt'', JStr ''t2''), (''_updatedAt'', JStr ''t2'')]])])\<lparr>writes := 2\<rparr>)"
  by (simp add: insert_call_def normalize_def readDatabase_def writeDatabase_def lookup_def
      documentsWithMetadata_def withMetadata_def enumerate_eq_zip opened_def)


section \<open>Properties of sorting\<close>

subsection \<open>The comparison of the source and the natural ordering\<close>

lemma code_units_less_lexord: "code_units_less a b \<longleftrightarrow> (a, b) \<in> lexord code_unit_order"
  by (induction a b rule: code_units_less.induct)
     (auto simp: code_unit_order_def dest: of_char_eqI)

lemma trans_code_unit_order: "trans code_unit_order"
  by (auto simp: code_unit_order_def trans_def)

lemma asym_code_unit_order: "asym code_unit_order"
  by (auto simp: code_unit_order_def intro!: asymI)

lemma linear_code_unit_order: "(a, b) \<in> code_unit_order \<or> a = b \<or> (b, a) \<in> code_unit_order"
  using of_char_eqI [of a b, where ?'a = nat] by (auto simp: code_unit_order_def)

lemma is_number_iff: "is_number x \<longleftrightarrow> (\<exists>n. x = Some (JNum n))"
  by (cases x rule: is_number.cases) auto

lemma is_string_iff: "is_string x \<longleftrightarrow> (\<exists>s. x = Some (JStr s))"
  by (cases x rule: is_string.cases) auto

lemma js_less_natural:
  "is_number x \<and> is_number y \<or> is_string x \<and> is_string y \<Longrightarrow>
     js_less conv x y = natural_less x y"
  by (auto simp: code_units_less_lexord is_number_iff is_string_iff)

lemma natural_less_asym: "natural_less x y \<Longrightarrow> \<not> natural_less y x"
  by (cases "(x, y)" rule: natural_less.cases)
     (auto dest: lexord_asymmetric [OF asym_code_unit_order])

lemma natural_less_trans: "natural_less x y \<Longrightarrow> natural_less y z \<Longrightarrow> natural_less x z"
  by (cases "(x, y)" rule: natural_less.cases; cases "(y, z)" rule: natural_less.cases)
     (auto dest: lexord_trans [OF _ _ trans_code_unit_order])

lemma natural_less_tie:
  "is_number x \<and> is_number y \<or> is_string x \<and> is_string y \<Longrightarrow>
     \<not> natural_less x y \<Longrightarrow> \<not> natural_less y x \<Longrightarrow> x = y"
  using lexord_linear [of code_unit_order] linear_code_unit_order
  by (fastforce simp: is_number_iff is_string_iff)

lemma same_kind_pair:
  "same_kind docs k \<Longrightarrow> a \<in> set docs \<Longrightarrow> b \<in> set docs \<Longrightarrow>
     is_number (lookup a k) \<and> is_number (lookup b k)
   \<or> is_string (lookup a k) \<and> is_string (lookup b k)"
  by (auto simp: same_kind_def list_all_iff)

subsection \<open>The comparator decides the composite key order\<close>

lemma compare_composite:
  "\<forall>(k, dir) \<in> set sort_spec. same_kind docs k \<Longrightarrow> a \<in> set docs \<Longrightarrow> b \<in> set docs \<Longrightarrow>
     compareDocuments conv sort_spec a b \<le> 0 \<longleftrightarrow> composite_before sort_spec a b"
proof (induction sort_spec)
  case Nil
  then show ?case by simp
next
  case (Cons kd rest)
  obtain k dir where kd: "kd = (k, dir)" by (cases kd)
  from Cons.prems kd have sk: "same_kind docs k" by simp
  have ab: "js_less conv (lookup a k) (lookup b k) = natural_less (lookup a k) (lookup b k)"
    by (rule js_less_natural) (rule same_kind_pair [OF sk Cons.prems(2) Cons.prems(3)])
  have ba: "js_less conv (lookup b k) (lookup a k) = natural_less (lookup b k) (lookup a k)"
    by (rule js_less_natural) (rule same_kind_pair [OF sk Cons.prems(3) Cons.prems(2)])
  from Cons have IH: "compareDocuments conv rest a b \<le> 0 \<longleftrightarrow> composite_before rest a b"
    by simp
  show ?case by (simp add: kd ab ba IH)
qed

lemma composite_before_total:
  "composite_before sort_spec a b \<or> composite_before sort_spec b a"
proof (induction sort_spec)
  case Nil
  then show ?case by simp
next
  case (Cons kd rest)
  obtain k dir where kd: "kd = (k, dir)" by (cases kd)
  show ?case
    using Cons.IH natural_less_asym [of "lookup a k" "lookup b k"]
    by (auto simp: kd)
qed

lemma composite_before_trans:
  "\<forall>(k, dir) \<in> set sort_spec. same_kind docs k \<Longrightarrow>
   a \<in> set docs \<Longrightarrow> b \<in> set docs \<Longrightarrow> c \<in> set docs \<Longrightarrow>
     composite_before sort_spec a b \<Longrightarrow> composite_before sort_spec b c \<Longrightarrow>
     composite_before sort_spec a c"
proof (induction sort_spec)
  case Nil
  then show ?case by simp
next
  case (Cons kd rest)
  obtain k dir where kd: "kd = (k, dir)" by (cases kd)
  from Cons.prems kd have sk: "same_kind docs k" by simp
  define x y z where "x = lookup a k" and "y = lookup b k" and "z = lookup c k"
  note xy = same_kind_pair [OF sk Cons.prems(2) Cons.prems(3), folded x_def y_def]
  note yz = same_kind_pair [OF sk Cons.prems(3) Cons.prems(4), folded y_def z_def]
  have tie_xy: "\<not> natural_less x y \<Longrightarrow> \<not> natural_less y x \<Longrightarrow> x = y"
    by (rule natural_less_tie [OF xy])
  have tie_yz: "\<not> natural_less y z \<Longrightarrow> \<not> natural_less z y \<Longrightarrow> y = z"
    by (rule natural_less_tie [OF yz])
  have IH: "composite_before rest a b \<Longrightarrow> composite_before rest b c \<Longrightarrow> composite_before rest a c"
    using Cons by simp
  from Cons.prems(5,6) have
    ab: "if natural_less x y then dir = JNum 1
         else if natural_less y x then dir \<noteq> JNum 1 else composite_before rest a b"
    and bc: "if natural_less y z then dir = JNum 1
         else if natural_less z y then dir \<noteq> JNum 1 else composite_before rest b c"
    by (simp_all add: kd x_def y_def z_def)
  have "if natural_less x z then dir = JNum 1
        else if natural_less z x then dir \<noteq> JNum 1 else composite_before rest a c"
    using ab bc IH tie_xy tie_yz
      natural_less_asym [of x y] natural_less_asym [of y z] natural_less_asym [of x z]
      natural_less_trans [of x y z] natural_less_trans [of z y x]
    by (auto split: if_splits)
  then show ?case by (simp add: kd x_def y_def z_def)
qed

lemma compare_absent:
  "lookup a k = None \<or> lookup b k = None \<Longrightarrow>
     compareDocuments conv ((k, dir) # rest) a b = compareDocuments conv rest a b"
  by (cases "lookup a k"; cases "lookup b k") auto

subsection \<open>The stable insertion sort\<close>

lemma set_insert_sorted: "set (insert_sorted cmp x ys) = insert x (set ys)"
  by (induction ys) auto

lemma mset_insert_sorted: "mset (insert_sorted cmp x ys) = add_mset x (mset ys)"
  by (induction ys) auto

lemma mset_array_sort: "mset (array_sort cmp xs) = mset xs"
  by (induction xs) (auto simp: array_sort_def mset_insert_sorted)

lemma sorted_insert_sorted:
  assumes tr: "\<And>a b c. a \<in> S \<Longrightarrow> b \<in> S \<Longrightarrow> c \<in> S \<Longrightarrow> le a b \<Longrightarrow> le b c \<Longrightarrow> le a c"
    and tot: "\<And>a b. a \<in> S \<Longrightarrow> b \<in> S \<Longrightarrow> le a b \<or> le b a"
    and le: "\<And>a b. a \<in> S \<Longrightarrow> b \<in> S \<Longrightarrow> cmp a b \<le> 0 \<longleftrightarrow> le a b"
    and x: "x \<in> S"
  shows "set ys \<subseteq> S \<Longrightarrow> sorted_wrt le ys \<Longrightarrow> sorted_wrt le (insert_sorted cmp x ys)"
proof (induction ys)
  case Nil
  then show ?case by simp
next
  case (Cons y ys)
  then have y: "y \<in> S" and ys: "set ys \<subseteq> S" and srt: "sorted_wrt le ys"
    and after: "\<forall>z \<in> set ys. le y z"
    by auto
  show ?case
  proof (cases "cmp x y \<le> 0")
    case True
    then have xy: "le x y" using le x y by simp
    have "\<forall>z \<in> set ys. le x z"
      using xy after tr x y ys by blast
    with True xy Cons.prems show ?thesis by simp
  next
    case False
    then have "\<not> le x y" using le x y by simp
    then have yx: "le y x" using tot x y by blast
    from False yx after Cons.IH [OF ys srt] show ?thesis
      by (simp add: set_insert_sorted)
  qed
qed

lemma sorted_array_sort:
  assumes tr: "\<And>a b c. a \<in> S \<Longrightarrow> b \<in> S \<Longrightarrow> c \<in> S \<Longrightarrow> le a b \<Longrightarrow> le b c \<Longrightarrow> le a c"
    and tot: "\<And>a b. a \<in> S \<Longrightarrow> b \<in> S \<Longrightarrow> le a b \<or> le b a"
    and le: "\<And>a b. a \<in> S \<Longrightarrow> b \<in> S \<Longrightarrow> cmp a b \<le> 0 \<longleftrightarrow> le a b"
  shows "set xs \<subseteq> S \<Longrightarrow> sorted_wrt le (array_sort cmp xs)"
proof (induction xs)
  case Nil
  then show ?case by (simp add: array_sort_def)
next
  case (Cons x xs)
  then have x: "x \<in> S" and xs: "set xs \<subseteq> S" by auto
  have sub: "set (array_sort cmp xs) \<subseteq> S"
    using xs mset_array_sort [of cmp xs] by (metis set_mset_mset)
  have "sorted_wrt le (insert_sorted cmp x (array_sort cmp xs))"
    by (rule sorted_insert_sorted [of S le cmp, OF tr tot le x sub Cons.IH [OF xs]])
  then show ?case by (simp add: array_sort_def)
qed

lemma sortDocuments_sorted:
  assumes "\<forall>(k, dir) \<in> set sort_spec. same_kind docs k"
  shows "sorted_wrt (composite_before sort_spec) (sortDocuments conv docs sort_spec)"
  unfolding sortDocuments_def
proof (rule sorted_array_sort [where S = "set docs"])
  show "set docs \<subseteq> set docs" by simp
qed (use assms composite_before_trans composite_before_total compare_composite in blast)+

subsection \<open>Find with a sort option\<close>

text \<open>
  Claim C5, as the code has it. \<open>matching\<close> is the filtered result. Where every sort
  field has one value type over the matching documents (a number in each, or a string
  in each), find with a sort option returns, before pagination, a rearrangement \<open>rs\<close>
  of the matching documents in composite key order: fields in the given order,
  ascending where the direction is 1 and descending otherwise, ties falling through,
  by the natural ordering of the value type. A document on which a sort field is
  absent is not the smallest: the comparator takes the field as a tie between that
  document and any other, and goes on to the next field.
\<close>

theorem find_sorted_by_composite_key:
  assumes "initialized e" and "content e = Stored db" and "lookup db c = Some stored"
    and "opt_sort opts = Some sort_spec"
    and "matching = filter (\<lambda>d. matchesQuery d q) stored"
    and "\<forall>(k, dir) \<in> set sort_spec. same_kind matching k"
  shows "(\<exists>rs. find_op conv c q opts e = (Inr (paginate opts rs, length (paginate opts rs)), e)
            \<and> sorted_wrt (composite_before sort_spec) rs \<and> mset rs = mset matching)
       \<and> (\<forall>a b k dir rest. lookup a k = None \<or> lookup b k = None \<longrightarrow>
            compareDocuments conv ((k, dir) # rest) a b = compareDocuments conv rest a b)"
proof -
  let ?rs = "sortDocuments conv matching sort_spec"
  have 1: "find_op conv c q opts e = (Inr (paginate opts ?rs, length (paginate opts ?rs)), e)"
    using assms(1-5) by (simp add: find_op_def readDatabase_stored Let_def)
  have 2: "sorted_wrt (composite_before sort_spec) ?rs"
    by (rule sortDocuments_sorted [OF assms(6)])
  have 3: "mset ?rs = mset matching"
    by (simp add: sortDocuments_def mset_array_sort)
  from 1 2 3 compare_absent show ?thesis by blast
qed

theorem find_sorted_by_composite_key_witness:
  "find_op (\<lambda>x y. False) ''items'' [] \<lparr>opt_sort = Some [(''n'', JNum 1)], opt_limit = None, opt_skip = None\<rparr>
      (opened [(''items'', [numbered 3, numbered 1, numbered 2])])
     = (Inr ([numbered 1, numbered 2, numbered 3], 3),
        opened [(''items'', [numbered 3, numbered 1, numbered 2])])
   \<and> sorted_wrt (composite_before [(''n'', JNum 1)]) [numbered 1, numbered 2, numbered 3]
   \<and> find_op (\<lambda>x y. False) ''items'' [] \<lparr>opt_sort = Some [(''n'', JNum 0)], opt_limit = None, opt_skip = None\<rparr>
      (opened [(''items'', [numbered 3, numbered 1, numbered 2])])
     = (Inr ([numbered 3, numbered 2, numbered 1], 3),
        opened [(''items'', [numbered 3, numbered 1, numbered 2])])"
proof -
  let ?docs = "[numbered 3, numbered 1, numbered 2]"
  let ?db = "[(''items'', ?docs)]"
  have h1: "initialized (opened ?db)" and h2: "content (opened ?db) = Stored ?db"
    by (simp_all add: opened_simps)
  have h3: "lookup ?db ''items'' = Some ?docs" by (simp add: lookup_def)
  have h5: "?docs = filter (\<lambda>d. matchesQuery d []) ?docs" by (simp add: matchesQuery_def)
  have h6: "\<forall>(k, dir) \<in> set [(''n'', dir0)]. same_kind ?docs k" for dir0 :: json
    by (simp add: same_kind_def numbered_def lookup_def)
  have up: "sortDocuments (\<lambda>x y. False) ?docs [(''n'', JNum 1)] = [numbered 1, numbered 2, numbered 3]"
    by (simp add: sortDocuments_def array_sort_def numbered_def lookup_def)
  have down: "sortDocuments (\<lambda>x y. False) ?docs [(''n'', JNum 0)] = [numbered 3, numbered 2, numbered 1]"
    by (simp add: sortDocuments_def array_sort_def numbered_def lookup_def)
  from find_sorted_by_composite_key [OF h1 h2 h3 _ h5 h6,
      of "\<lparr>opt_sort = Some [(''n'', JNum 1)], opt_limit = None, opt_skip = None\<rparr>" "JNum 1"
         "\<lambda>x y. False"]
  obtain rs where
    r: "find_op (\<lambda>x y. False) ''items'' []
          \<lparr>opt_sort = Some [(''n'', JNum 1)], opt_limit = None, opt_skip = None\<rparr> (opened ?db)
        = (Inr (rs, length rs), opened ?db)"
    and s: "sorted_wrt (composite_before [(''n'', JNum 1)]) rs"
    by (auto simp: paginate_def)
  have "rs = [numbered 1, numbered 2, numbered 3]"
    using r up by (simp add: find_op_def readDatabase_def opened_def lookup_def matchesQuery_def
        paginate_def)
  with r s have first: "find_op (\<lambda>x y. False) ''items'' []
          \<lparr>opt_sort = Some [(''n'', JNum 1)], opt_limit = None, opt_skip = None\<rparr> (opened ?db)
        = (Inr ([numbered 1, numbered 2, numbered 3], 3), opened ?db)"
    and srt: "sorted_wrt (composite_before [(''n'', JNum 1)]) [numbered 1, numbered 2, numbered 3]"
    by simp_all
  have second: "find_op (\<lambda>x y. False) ''items'' []
          \<lparr>opt_sort = Some [(''n'', JNum 0)], opt_limit = None, opt_skip = None\<rparr> (opened ?db)
        = (Inr ([numbered 3, numbered 2, numbered 1], 3), opened ?db)"
    using down by (simp add: find_op_def readDatabase_def opened_def lookup_def matchesQuery_def
        paginate_def)
  from first srt second show ?thesis by simp
qed

text \<open>
  The claim as the specification words it fails: sorted by age, ascending, the
  document without an age does not come first. It ties with the other document and
  keeps its place behind it.
\<close>

theorem find_sort_absent_field_counterexample:
  "lookup [(''name'', JStr ''Jane'')] ''age'' = None
   \<and> fst (find_op (\<lambda>x y. False) ''users'' []
        \<lparr>opt_sort = Some [(''age'', JNum 1)], opt_limit = None, opt_skip = None\<rparr>
        (opened [(''users'', [[(''name'', JStr ''Kofi''), (''age'', JNum 30)],
                            [(''name'', JStr ''Jane'')]])]))
     = Inr ([[(''name'', JStr ''Kofi''), (''age'', JNum 30)], [(''name'', JStr ''Jane'')]], 2)"
  by (simp add: find_op_def readDatabase_def opened_def lookup_def matchesQuery_def
      paginate_def sortDocuments_def array_sort_def)


end
